theory Spec2Isabelle
  imports Main
begin

section \<open>The Mutation component of react-apollo (src/Mutation.tsx)\<close>

text \<open>
  The component wraps one asynchronous remote operation. Its only mutable data are the
  private fields \<^verbatim>\<open>client\<close> and \<^verbatim>\<open>mostRecentMutationId\<close>, the React state and the
  props. Every method is embedded as a function from the component to the component it
  leaves behind; a failed \<^verbatim>\<open>invariant\<close> is the left summand of the result, and a method
  that runs a callback of the caller gives, with the component, the value thrown, if any.

  Modelling conventions:
  \<^item> \<^verbatim>\<open>undefined\<close> is \<open>None\<close>, so an optional field is an \<open>option\<close>;
  \<^item> objects that the component only passes around (documents, variables, client handles)
    are values of a type parameter and are compared by identity;
  \<^item> \<^verbatim>\<open>setState\<close> merges the given keys into the state at once and then runs its callback;
    on a component that React has unmounted it does nothing and never runs the callback;
  \<^item> a callback \<^verbatim>\<open>onCompleted\<close> or \<^verbatim>\<open>onError\<close> of the caller is a name together with what
    it does when called: it returns, or it throws a value. Every invocation is recorded,
    in order, in the field \<open>invoked\<close>. Callbacks do not call back into the component;
  \<^item> \<^verbatim>\<open>mostRecentMutationId\<close> is a natural number (a JavaScript number counts exactly up
    to \<open>2^53\<close>, which no run of triggers reaches).
\<close>

subsection \<open>Data\<close>

datatype DocumentType = Query | Mutation | Subscription

datatype error = InvariantViolation string

record ('d, 'e) MutationResult =
  data :: "'d option"
  error :: "'e option"
  loading :: "bool option"

record ('d, 'e) MutationState = "('d, 'e) MutationResult" +
  notCalled :: bool

text \<open>
  The argument of \<^verbatim>\<open>setState\<close> and the constant \<^verbatim>\<open>initialState\<close> are object literals that
  carry only some of the keys of the state. A key that is absent is \<open>None\<close>; a key that is
  present holds the value written, which for \<^verbatim>\<open>error: undefined\<close> is \<open>Some None\<close>.
\<close>

record ('d, 'e) PartialState =
  set_notCalled :: "bool option"
  set_error :: "'e option option"
  set_data :: "'d option option"
  set_loading :: "bool option option"

text \<open>
  A callback of the caller: its identity, and for each argument the value it throws when
  called with it (\<open>None\<close> when it returns normally).
\<close>

record ('f, 'a, 'e) callback =
  callback_id :: 'f
  callback_throws :: "'a \<Rightarrow> 'e option"

record ('doc, 'x, 'f, 'd, 'e) MutationProps =
  mutation :: 'doc
  variables :: "'x option"
  optimisticResponse :: "'x option"
  refetchQueries :: "'x option"
  update :: "'x option"
  children :: 'x
  onCompleted :: "('f, 'd, 'e) callback option"
  onError :: "('f, 'e, 'e) callback option"

record 'c Context =
  context_client :: "'c option"

text \<open>One entry of the record of callback invocations: the callback's identity and its argument.\<close>

datatype ('f, 'd, 'e) invocation = CalledOnCompleted 'f 'd | CalledOnError 'f 'e

text \<open>
  The component: its private fields, its React state and props, the record of callback
  invocations, and whether React still has it mounted (the source has no
  \<^verbatim>\<open>componentWillUnmount\<close>; the flag is React's own).
\<close>

record ('doc, 'x, 'f, 'c, 'd, 'e) component =
  client :: "'c option"
  mostRecentMutationId :: nat
  state :: "('d, 'e) MutationState"
  props :: "('doc, 'x, 'f, 'd, 'e) MutationProps"
  invoked :: "('f, 'd, 'e) invocation list"
  mounted :: bool

text \<open>
  How the promise of \<^verbatim>\<open>this.mutate()\<close> settles: resolved, with \<^verbatim>\<open>response.data\<close> (which the
  source casts to \<^verbatim>\<open>TData\<close>), or rejected, with the error (cast to \<^verbatim>\<open>ApolloError\<close>).
\<close>

datatype ('d, 'e) outcome = Resolved 'd | Rejected 'e

subsection \<open>State updates\<close>

definition no_keys :: "('d, 'e) PartialState" where
  "no_keys = \<lparr>set_notCalled = None, set_error = None, set_data = None, set_loading = None\<rparr>"

text \<open>\<^verbatim>\<open>const initialState = { notCalled: true }\<close>\<close>

definition initialState :: "('d, 'e) PartialState" where
  "initialState = no_keys\<lparr>set_notCalled := Some True\<rparr>"

text \<open>
  An object literal read as a whole state, as the constructor's
  \<^verbatim>\<open>this.state = initialState\<close> does: a key that is absent reads as \<^verbatim>\<open>undefined\<close>.
\<close>

definition as_state :: "('d, 'e) PartialState \<Rightarrow> ('d, 'e) MutationState" where
  "as_state p =
     \<lparr>data = (case set_data p of None \<Rightarrow> None | Some v \<Rightarrow> v),
      error = (case set_error p of None \<Rightarrow> None | Some v \<Rightarrow> v),
      loading = (case set_loading p of None \<Rightarrow> None | Some v \<Rightarrow> v),
      notCalled = (set_notCalled p = Some True)\<rparr>"

text \<open>The shallow merge of \<^verbatim>\<open>setState\<close>: keys present overwrite, keys absent are kept.\<close>

definition merge :: "('d, 'e) MutationState \<Rightarrow> ('d, 'e) PartialState \<Rightarrow> ('d, 'e) MutationState" where
  "merge s p =
     \<lparr>data = (case set_data p of None \<Rightarrow> data s | Some v \<Rightarrow> v),
      error = (case set_error p of None \<Rightarrow> error s | Some v \<Rightarrow> v),
      loading = (case set_loading p of None \<Rightarrow> loading s | Some v \<Rightarrow> v),
      notCalled = (case set_notCalled p of None \<Rightarrow> notCalled s | Some v \<Rightarrow> v)\<rparr>"

text \<open>
  \<^verbatim>\<open>this.setState(partial)\<close> on a mounted component. The source calls it without a callback
  in \<^verbatim>\<open>componentWillReceiveProps\<close>, which React runs on a mounted component only, and in
  \<^verbatim>\<open>onStartMutation\<close>, which the trigger of the rendered children runs.
\<close>

definition setState ::
  "('d, 'e) PartialState \<Rightarrow> ('doc, 'x, 'f, 'c, 'd, 'e) component \<Rightarrow> ('doc, 'x, 'f, 'c, 'd, 'e) component" where
  "setState p m = m\<lparr>state := merge (state m) p\<rparr>"

text \<open>
  \<^verbatim>\<open>this.setState(partial, callback)\<close>, which the source calls when a promise has settled,
  maybe after React has unmounted the component. Code that may throw gives the component
  it leaves behind together with the value thrown, if any.
  \<^item> On an unmounted component React drops the update and its callback.
  \<^item> On a mounted one the keys are merged and the callback runs. When the callback throws,
    React 16 takes that for an error of the rendered tree: with no error boundary above
    the component it unmounts the tree and throws the error again, out of \<^verbatim>\<open>setState\<close>.
\<close>

definition setState_callback ::
  "('d, 'e) PartialState \<Rightarrow>
   (('doc, 'x, 'f, 'c, 'd, 'e) component \<Rightarrow> ('doc, 'x, 'f, 'c, 'd, 'e) component \<times> 'e option) \<Rightarrow>
   ('doc, 'x, 'f, 'c, 'd, 'e) component \<Rightarrow> ('doc, 'x, 'f, 'c, 'd, 'e) component \<times> 'e option" where
  "setState_callback p callback m =
     (if mounted m
      then (case callback (setState p m) of
              (m', None) \<Rightarrow> (m', None)
            | (m', Some thrown) \<Rightarrow> (m'\<lparr>mounted := False\<rparr>, Some thrown))
      else (m, None))"

subsection \<open>Validation\<close>

text \<open>\<^verbatim>\<open>invariant(condition, message)\<close> throws an error with the message when the condition fails.\<close>

definition invariant :: "bool \<Rightarrow> string \<Rightarrow> error + unit" where
  "invariant condition message = (if condition then Inr () else Inl (InvariantViolation message))"

text \<open>
  The classifier \<^verbatim>\<open>parser\<close> of \<^verbatim>\<open>./parser\<close> is a parameter of the model: it gives the
  \<^verbatim>\<open>type\<close> of the operation that a document holds.
\<close>

definition verifyDocumentIsMutation :: "('doc \<Rightarrow> DocumentType) \<Rightarrow> 'doc \<Rightarrow> error + unit" where
  "verifyDocumentIsMutation parser doc =
     (let operation_type = parser doc in
      invariant (operation_type = Mutation)
        (''The <Mutation /> component requires a graphql mutation, but got a '' @
         (if operation_type = Query then ''query'' else ''subscription'') @ ''.''))"

definition missing_client_message :: string where
  \<open>missing_client_message =
     ''Could not find "client" in the context of Mutation. Wrap the root component in an <ApolloProvider>''\<close>

definition verifyContext :: "'c Context \<Rightarrow> error + unit" where
  "verifyContext ctx = invariant (context_client ctx \<noteq> None) missing_client_message"

subsection \<open>Construction, reconfiguration, rendering\<close>

definition constructor ::
  "('doc \<Rightarrow> DocumentType) \<Rightarrow> ('doc, 'x, 'f, 'd, 'e) MutationProps \<Rightarrow> 'c Context \<Rightarrow>
   error + ('doc, 'x, 'f, 'c, 'd, 'e) component" where
  "constructor parser p ctx =
     (case verifyContext ctx of
        Inl e \<Rightarrow> Inl e
      | Inr _ \<Rightarrow>
         (case verifyDocumentIsMutation parser (mutation p) of
            Inl e \<Rightarrow> Inl e
          | Inr _ \<Rightarrow>
              Inr \<lparr>client = context_client ctx, mostRecentMutationId = 0,
                   state = as_state initialState, props = p, invoked = [], mounted = True\<rparr>))"

text \<open>
  \<^verbatim>\<open>shallowEqual\<close> of fbjs compares two objects key by key with \<^verbatim>\<open>Object.is\<close>; the values
  of the props stand for their identities, so it is equality of the records.
\<close>

definition shallowEqual :: "('doc, 'x, 'f, 'd, 'e) MutationProps \<Rightarrow> ('doc, 'x, 'f, 'd, 'e) MutationProps \<Rightarrow> bool" where
  "shallowEqual p q = (p = q)"

definition componentWillReceiveProps ::
  "('doc \<Rightarrow> DocumentType) \<Rightarrow> ('doc, 'x, 'f, 'c, 'd, 'e) component \<Rightarrow>
   ('doc, 'x, 'f, 'd, 'e) MutationProps \<Rightarrow> 'c Context \<Rightarrow> error + ('doc, 'x, 'f, 'c, 'd, 'e) component" where
  "componentWillReceiveProps parser m nextProps nextContext =
     (if shallowEqual (props m) nextProps \<and> client m = context_client nextContext then Inr m
      else
        (case verifyDocumentIsMutation parser (mutation nextProps) of
           Inl e \<Rightarrow> Inl e
         | Inr _ \<Rightarrow>
             (if client m \<noteq> context_client nextContext
              then Inr (setState initialState (m\<lparr>client := context_client nextContext\<rparr>))
              else Inr m)))"

text \<open>
  One reconfiguration by the host: React calls \<^verbatim>\<open>componentWillReceiveProps\<close> and, when it
  returns, installs the next props.
\<close>

definition reconfigure ::
  "('doc \<Rightarrow> DocumentType) \<Rightarrow> ('doc, 'x, 'f, 'c, 'd, 'e) component \<Rightarrow>
   ('doc, 'x, 'f, 'd, 'e) MutationProps \<Rightarrow> 'c Context \<Rightarrow> error + ('doc, 'x, 'f, 'c, 'd, 'e) component" where
  "reconfigure parser m nextProps nextContext =
     (case componentWillReceiveProps parser m nextProps nextContext of
        Inl e \<Rightarrow> Inl e
      | Inr m' \<Rightarrow> Inr (m'\<lparr>props := nextProps\<rparr>))"

text \<open>
  \<^verbatim>\<open>render\<close> returns \<^verbatim>\<open>children(this.runMutation, result)\<close>; the model gives the
  \<^verbatim>\<open>result\<close> that the render function receives, \<open>None\<close> for \<^verbatim>\<open>undefined\<close>.
\<close>

definition render :: "('doc, 'x, 'f, 'c, 'd, 'e) component \<Rightarrow> ('d, 'e) MutationResult option" where
  "render m =
     (if notCalled (state m) then None
      else Some \<lparr>data = data (state m), error = error (state m), loading = loading (state m)\<rparr>)"

subsection \<open>Running a mutation\<close>

definition onStartMutation ::
  "('doc, 'x, 'f, 'c, 'd, 'e) component \<Rightarrow> ('doc, 'x, 'f, 'c, 'd, 'e) component" where
  "onStartMutation m =
     (if loading (state m) \<noteq> Some True
      then setState \<lparr>set_notCalled = Some False, set_error = Some None, set_data = Some None,
                     set_loading = Some (Some True)\<rparr> m
      else m)"

text \<open>
  The closures \<^verbatim>\<open>callOncomplete\<close> and \<^verbatim>\<open>callOnError\<close>: the callback of the props, if there is
  one, is invoked, and what it throws is thrown on.
\<close>

definition callOncomplete ::
  "'d \<Rightarrow> ('doc, 'x, 'f, 'c, 'd, 'e) component \<Rightarrow> ('doc, 'x, 'f, 'c, 'd, 'e) component \<times> 'e option" where
  "callOncomplete d m =
     (case onCompleted (props m) of
        Some f \<Rightarrow> (m\<lparr>invoked := invoked m @ [CalledOnCompleted (callback_id f) d]\<rparr>, callback_throws f d)
      | None \<Rightarrow> (m, None))"

definition onCompletedMutation ::
  "('doc, 'x, 'f, 'c, 'd, 'e) component \<Rightarrow> 'd \<Rightarrow> nat \<Rightarrow>
   ('doc, 'x, 'f, 'c, 'd, 'e) component \<times> 'e option" where
  "onCompletedMutation m d mutationId =
     (if mostRecentMutationId m = mutationId
      then setState_callback (no_keys\<lparr>set_loading := Some (Some False), set_data := Some (Some d)\<rparr>)
             (callOncomplete d) m
      else callOncomplete d m)"

definition callOnError ::
  "'e \<Rightarrow> ('doc, 'x, 'f, 'c, 'd, 'e) component \<Rightarrow> ('doc, 'x, 'f, 'c, 'd, 'e) component \<times> 'e option" where
  "callOnError apolloError m =
     (case onError (props m) of
        Some f \<Rightarrow> (m\<lparr>invoked := invoked m @ [CalledOnError (callback_id f) apolloError]\<rparr>,
                   callback_throws f apolloError)
      | None \<Rightarrow> (m, None))"

definition onMutationError ::
  "('doc, 'x, 'f, 'c, 'd, 'e) component \<Rightarrow> 'e \<Rightarrow> nat \<Rightarrow>
   ('doc, 'x, 'f, 'c, 'd, 'e) component \<times> 'e option" where
  "onMutationError m apolloError mutationId =
     (if mostRecentMutationId m = mutationId
      then setState_callback (no_keys\<lparr>set_loading := Some (Some False), set_error := Some (Some apolloError)\<rparr>)
             (callOnError apolloError) m
      else callOnError apolloError m)"

text \<open>
  \<^verbatim>\<open>runMutation\<close> is an async function. Its body runs at once up to the \<^verbatim>\<open>await\<close>:
  \<open>runMutation\<close> is that part and returns the component with the \<^verbatim>\<open>mutationId\<close> that
  the call holds. \<open>runMutation_resume\<close> is the rest, run when the promise has settled.
  When it resolved, \<^verbatim>\<open>onCompletedMutation\<close> runs inside the \<^verbatim>\<open>try\<close>, so that what it throws
  is caught and handed to \<^verbatim>\<open>onMutationError\<close> with the same \<^verbatim>\<open>mutationId\<close>; when it was
  rejected, the \<^verbatim>\<open>catch\<close> branch runs with the error. What \<^verbatim>\<open>onMutationError\<close> throws leaves
  the function and touches the component no more. The call \<^verbatim>\<open>this.client.mutate\<close> itself,
  which \<^verbatim>\<open>mutate\<close> makes with the fields of the props, changes nothing in the component;
  all the model keeps of it is the token of the call.
\<close>

definition runMutation ::
  "('doc, 'x, 'f, 'c, 'd, 'e) component \<Rightarrow> ('doc, 'x, 'f, 'c, 'd, 'e) component \<times> nat" where
  "runMutation m =
     (let m1 = onStartMutation m;
          m2 = m1\<lparr>mostRecentMutationId := mostRecentMutationId m1 + 1\<rparr>;
          mutationId = mostRecentMutationId m2
      in (m2, mutationId))"

fun runMutation_resume ::
  "('doc, 'x, 'f, 'c, 'd, 'e) component \<Rightarrow> nat \<Rightarrow> ('d, 'e) outcome \<Rightarrow> ('doc, 'x, 'f, 'c, 'd, 'e) component" where
  "runMutation_resume m mutationId (Resolved d) =
     (case onCompletedMutation m d mutationId of
        (m', None) \<Rightarrow> m'
      | (m', Some thrown) \<Rightarrow> fst (onMutationError m' thrown mutationId))"
| "runMutation_resume m mutationId (Rejected e) = fst (onMutationError m e mutationId)"

subsection \<open>Executions\<close>

text \<open>
  The component together with the tokens of the calls whose promise has not settled.
  A step is a trigger or a reconfiguration that raises no error, both of a mounted
  component, the settling of an outstanding call, mounted or not, or the teardown of the
  component by React. The reachable systems are those a constructed component gets to.
\<close>

inductive step ::
  "('doc \<Rightarrow> DocumentType) \<Rightarrow> ('doc, 'x, 'f, 'c, 'd, 'e) component \<times> nat set \<Rightarrow>
   ('doc, 'x, 'f, 'c, 'd, 'e) component \<times> nat set \<Rightarrow> bool"
  for parser where
  trigger: "mounted m \<Longrightarrow> runMutation m = (m', t) \<Longrightarrow> step parser (m, out) (m', insert t out)"
| settle: "t \<in> out \<Longrightarrow> step parser (m, out) (runMutation_resume m t oc, out - {t})"
| reconfigured:
    "mounted m \<Longrightarrow> reconfigure parser m nextProps nextContext = Inr m' \<Longrightarrow> step parser (m, out) (m', out)"
| unmounted: "mounted m \<Longrightarrow> step parser (m, out) (m\<lparr>mounted := False\<rparr>, out)"

inductive reachable ::
  "('doc \<Rightarrow> DocumentType) \<Rightarrow> ('doc, 'x, 'f, 'c, 'd, 'e) component \<times> nat set \<Rightarrow> bool"
  for parser where
  constructed: "constructor parser p ctx = Inr m \<Longrightarrow> reachable parser (m, {})"
| stepped: "reachable parser s \<Longrightarrow> step parser s s' \<Longrightarrow> reachable parser s'"

text \<open>\<open>n\<close> triggers in a row, and a list of settlements in the order of their arrival.\<close>

fun triggers ::
  "nat \<Rightarrow> ('doc, 'x, 'f, 'c, 'd, 'e) component \<Rightarrow> ('doc, 'x, 'f, 'c, 'd, 'e) component" where
  "triggers 0 m = m"
| "triggers (Suc n) m = triggers n (fst (runMutation m))"

fun settles ::
  "('doc, 'x, 'f, 'c, 'd, 'e) component \<Rightarrow> (nat \<times> ('d, 'e) outcome) list \<Rightarrow>
   ('doc, 'x, 'f, 'c, 'd, 'e) component" where
  "settles m [] = m"
| "settles m ((t, oc) # rs) = settles (runMutation_resume m t oc) rs"

subsection \<open>The states and messages of the specification\<close>

text \<open>
  The specification names the outcome of a call as a state: Succeeded has \<^verbatim>\<open>loading\<close> false,
  the data set and the error cleared; Failed has \<^verbatim>\<open>loading\<close> false, the error set and the
  data cleared. Pending is what a trigger writes.
\<close>

fun outcome_state :: "('d, 'e) outcome \<Rightarrow> ('d, 'e) MutationState" where
  "outcome_state (Resolved d) = \<lparr>data = Some d, error = None, loading = Some False, notCalled = False\<rparr>"
| "outcome_state (Rejected e) = \<lparr>data = None, error = Some e, loading = Some False, notCalled = False\<rparr>"

definition pending_state :: "('d, 'e) MutationState" where
  "pending_state = \<lparr>data = None, error = None, loading = Some True, notCalled = False\<rparr>"

text \<open>The shapes a state may have, by its \<^verbatim>\<open>loading\<close> field.\<close>

definition well_shaped :: "('d, 'e) MutationState \<Rightarrow> bool" where
  "well_shaped s =
     (case loading s of
        None \<Rightarrow> data s = None \<and> error s = None \<and> notCalled s
      | Some True \<Rightarrow> data s = None \<and> error s = None
      | Some False \<Rightarrow> (data s \<noteq> None \<and> error s = None) \<or> (data s = None \<and> error s \<noteq> None))"

text \<open>
  What holds of every reachable system: the state is well shaped; while the component
  is mounted, it is loading exactly when the call with the latest token is outstanding;
  and the document of the props is a mutation.
\<close>

definition consistent ::
  "('doc \<Rightarrow> DocumentType) \<Rightarrow> ('doc, 'x, 'f, 'c, 'd, 'e) component \<times> nat set \<Rightarrow> bool" where
  "consistent parser s =
     (case s of (m, out) \<Rightarrow>
        well_shaped (state m) \<and>
        (mounted m \<longrightarrow> (loading (state m) = Some True) = (mostRecentMutationId m \<in> out)) \<and>
        parser (mutation (props m)) = Mutation)"

text \<open>The word by which a message names a kind of operation, and the message for a wrong kind.\<close>

fun kind_name :: "DocumentType \<Rightarrow> string" where
  "kind_name Query = ''query''"
| "kind_name Mutation = ''mutation''"
| "kind_name Subscription = ''subscription''"

definition wrong_kind_message :: "DocumentType \<Rightarrow> string" where
  "wrong_kind_message k =
     ''The <Mutation /> component requires a graphql mutation, but got a '' @ kind_name k @ ''.''"

subsection \<open>A concrete component\<close>

text \<open>
  Documents that are their own kind of operation, client handles that are numbers,
  callbacks 1 and 2 that return normally. \<open>ex_fresh\<close> is the component as constructed
  with client 1, \<open>ex_pending\<close> after one trigger, \<open>ex_reset\<close> after the client has then
  changed to 2, \<open>ex_retriggered\<close> after one more trigger.
\<close>

definition ex_parser :: "DocumentType \<Rightarrow> DocumentType" where
  "ex_parser doc = doc"

definition ex_props :: "(DocumentType, nat, nat, nat, nat) MutationProps" where
  "ex_props =
     \<lparr>mutation = Mutation, variables = None, optimisticResponse = None, refetchQueries = None,
      update = None, children = 0,
      onCompleted = Some \<lparr>callback_id = 1, callback_throws = (\<lambda>d. None)\<rparr>,
      onError = Some \<lparr>callback_id = 2, callback_throws = (\<lambda>e. None)\<rparr>\<rparr>"

definition ex_query_props :: "(DocumentType, nat, nat, nat, nat) MutationProps" where
  "ex_query_props = ex_props\<lparr>mutation := Query\<rparr>"

definition ex_context :: "nat \<Rightarrow> nat Context" where
  "ex_context c = \<lparr>context_client = Some c\<rparr>"

definition ex_no_client :: "nat Context" where
  "ex_no_client = \<lparr>context_client = None\<rparr>"

definition ex_fresh :: "(DocumentType, nat, nat, nat, nat, nat) component" where
  "ex_fresh =
     \<lparr>client = Some 1, mostRecentMutationId = 0,
      state = \<lparr>data = None, error = None, loading = None, notCalled = True\<rparr>,
      props = ex_props, invoked = [], mounted = True\<rparr>"

definition ex_pending :: "(DocumentType, nat, nat, nat, nat, nat) component" where
  "ex_pending =
     \<lparr>client = Some 1, mostRecentMutationId = 1,
      state = \<lparr>data = None, error = None, loading = Some True, notCalled = False\<rparr>,
      props = ex_props, invoked = [], mounted = True\<rparr>"

definition ex_reset :: "(DocumentType, nat, nat, nat, nat, nat) component" where
  "ex_reset =
     \<lparr>client = Some 2, mostRecentMutationId = 1,
      state = \<lparr>data = None, error = None, loading = Some True, notCalled = True\<rparr>,
      props = ex_props, invoked = [], mounted = True\<rparr>"

definition ex_retriggered :: "(DocumentType, nat, nat, nat, nat, nat) component" where
  "ex_retriggered =
     \<lparr>client = Some 2, mostRecentMutationId = 2,
      state = \<lparr>data = None, error = None, loading = Some True, notCalled = True\<rparr>,
      props = ex_props, invoked = [], mounted = True\<rparr>"

text \<open>The component after one trigger whose call has resolved with data 7.\<close>

definition ex_succeeded :: "(DocumentType, nat, nat, nat, nat, nat) component" where
  "ex_succeeded =
     \<lparr>client = Some 1, mostRecentMutationId = 1,
      state = \<lparr>data = Some 7, error = None, loading = Some False, notCalled = False\<rparr>,
      props = ex_props, invoked = [CalledOnCompleted 1 7], mounted = True\<rparr>"

text \<open>
  Props whose completion callback 3 throws the value 13, the component \<open>ex_retriggered\<close>
  with these props, and the component \<open>ex_pending\<close> after its teardown.
\<close>

definition ex_throwing_props :: "(DocumentType, nat, nat, nat, nat) MutationProps" where
  "ex_throwing_props =
     ex_props\<lparr>onCompleted := Some \<lparr>callback_id = 3, callback_throws = (\<lambda>d. Some 13)\<rparr>\<rparr>"

definition ex_throwing :: "(DocumentType, nat, nat, nat, nat, nat) component" where
  "ex_throwing = ex_retriggered\<lparr>props := ex_throwing_props\<rparr>"

definition ex_torn_down :: "(DocumentType, nat, nat, nat, nat, nat) component" where
  "ex_torn_down = ex_pending\<lparr>mounted := False\<rparr>"

section \<open>Basic facts\<close>

lemmas ops = setState_def setState_callback_def merge_def no_keys_def initialState_def as_state_def
  onStartMutation_def callOncomplete_def callOnError_def onCompletedMutation_def onMutationError_def
  runMutation_def

lemmas checks = constructor_def verifyContext_def verifyDocumentIsMutation_def invariant_def
  componentWillReceiveProps_def reconfigure_def shallowEqual_def wrong_kind_message_def
  missing_client_message_def

lemmas ex_defs = ex_parser_def ex_props_def ex_query_props_def ex_context_def ex_no_client_def
  ex_fresh_def ex_pending_def ex_reset_def ex_retriggered_def ex_succeeded_def
  ex_throwing_props_def ex_throwing_def ex_torn_down_def

subsection \<open>One settlement, one trigger\<close>

lemma counter_resume: "mostRecentMutationId (runMutation_resume m t oc) = mostRecentMutationId m"
  by (cases oc) (auto simp add: ops split: option.splits prod.splits if_splits)

lemma props_resume: "props (runMutation_resume m t oc) = props m"
  by (cases oc) (auto simp add: ops split: option.splits prod.splits if_splits)

lemma state_resume_stale:
  "t \<noteq> mostRecentMutationId m \<Longrightarrow> state (runMutation_resume m t oc) = state m"
  by (cases oc) (auto simp add: ops split: option.splits prod.splits if_splits)

lemma mounted_resume_stale:
  "t \<noteq> mostRecentMutationId m \<Longrightarrow> mounted (runMutation_resume m t oc) = mounted m"
  by (cases oc) (auto simp add: ops split: option.splits prod.splits if_splits)

lemma state_resume_unmounted:
  "\<not> mounted m \<Longrightarrow> state (runMutation_resume m t oc) = state m"
  by (cases oc) (auto simp add: ops split: option.splits prod.splits if_splits)

lemma mounted_resume: "mounted (runMutation_resume m t oc) \<Longrightarrow> mounted m"
  by (cases oc) (auto simp add: ops split: option.splits prod.splits if_splits)

lemma state_resume_latest:
  "mounted m \<Longrightarrow> state (runMutation_resume m (mostRecentMutationId m) (Resolved d)) =
     (state m)\<lparr>data := Some d, loading := Some False\<rparr>"
  "mounted m \<Longrightarrow> state (runMutation_resume m (mostRecentMutationId m) (Rejected e)) =
     (state m)\<lparr>error := Some e, loading := Some False\<rparr>"
  by (auto simp add: ops split: option.splits prod.splits if_splits)

lemma notCalled_resume: "notCalled (state (runMutation_resume m t oc)) = notCalled (state m)"
  by (cases oc) (auto simp add: ops split: option.splits prod.splits if_splits)

lemma counter_runMutation:
  "mostRecentMutationId (fst (runMutation m)) = Suc (mostRecentMutationId m)"
  "snd (runMutation m) = Suc (mostRecentMutationId m)"
  by (simp_all add: ops Let_def)

lemma state_runMutation:
  "state (fst (runMutation m)) = (if loading (state m) = Some True then state m else pending_state)"
  by (simp add: ops Let_def pending_state_def)

lemma props_runMutation: "props (fst (runMutation m)) = props m"
  by (simp add: ops Let_def)

lemma mounted_runMutation: "mounted (fst (runMutation m)) = mounted m"
  by (simp add: ops Let_def)

lemma invoked_runMutation: "invoked (fst (runMutation m)) = invoked m"
  by (simp add: ops Let_def)

lemma outcome_state_not_pending: "outcome_state oc \<noteq> pending_state\<lparr>notCalled := b\<rparr>"
  by (cases oc) (simp_all add: pending_state_def)

lemma resume_pending_latest:
  "mounted m \<Longrightarrow> state m = pending_state\<lparr>notCalled := b\<rparr> \<Longrightarrow>
   state (runMutation_resume m (mostRecentMutationId m) oc) = (outcome_state oc)\<lparr>notCalled := b\<rparr>"
  using state_resume_latest[of m] by (cases oc) (simp_all add: pending_state_def)

subsection \<open>Construction and reconfiguration\<close>

lemma constructor_Inr:
  "constructor parser p ctx = Inr m \<Longrightarrow>
     context_client ctx \<noteq> None \<and> parser (mutation p) = Mutation \<and>
     m = \<lparr>client = context_client ctx, mostRecentMutationId = 0,
          state = as_state initialState, props = p, invoked = [], mounted = True\<rparr>"
  by (auto simp add: constructor_def verifyContext_def verifyDocumentIsMutation_def invariant_def Let_def
      split: if_splits sum.splits)

lemma reconfigure_Inr:
  assumes "reconfigure parser m nextProps nextContext = Inr m'"
  shows "mostRecentMutationId m' = mostRecentMutationId m"
    and "props m' = nextProps"
    and "invoked m' = invoked m"
    and "state m' = (if client m = context_client nextContext then state m else (state m)\<lparr>notCalled := True\<rparr>)"
    and "client m' = context_client nextContext"
    and "parser (mutation nextProps) = Mutation \<or> (nextProps = props m \<and> client m = context_client nextContext)"
    and "mounted m' = mounted m"
  using assms
  by (auto simp add: reconfigure_def componentWillReceiveProps_def shallowEqual_def
      verifyDocumentIsMutation_def invariant_def Let_def ops split: if_splits sum.splits)

subsection \<open>Every reachable system is consistent\<close>

lemma consistent_constructed:
  "constructor parser p ctx = Inr m \<Longrightarrow> consistent parser (m, {})"
  by (drule constructor_Inr) (simp add: consistent_def well_shaped_def ops)

lemma consistent_settle:
  assumes "consistent parser (m, out)" and "t \<in> out"
  shows "consistent parser (runMutation_resume m t oc, out - {t})"
proof -
  let ?m' = "runMutation_resume m t oc"
  from assms have ws: "well_shaped (state m)"
    and eq: "mounted m \<Longrightarrow> (loading (state m) = Some True) = (mostRecentMutationId m \<in> out)"
    and doc: "parser (mutation (props m)) = Mutation"
    by (simp_all add: consistent_def)
  show ?thesis
  proof (cases "mounted m \<and> t = mostRecentMutationId m")
    case True
    then have mt: "mounted m" and t: "t = mostRecentMutationId m" by simp_all
    have st: "state ?m' = (case oc of Resolved d \<Rightarrow> (state m)\<lparr>data := Some d, loading := Some False\<rparr>
        | Rejected e \<Rightarrow> (state m)\<lparr>error := Some e, loading := Some False\<rparr>)"
      using state_resume_latest[OF mt] unfolding t by (cases oc) simp_all
    have "loading (state m) = Some True"
      using eq[OF mt] assms(2) t by simp
    then have "data (state m) = None \<and> error (state m) = None"
      using ws by (simp add: well_shaped_def)
    then have "well_shaped (state ?m')"
      unfolding st by (cases oc) (simp_all add: well_shaped_def)
    moreover have "loading (state ?m') \<noteq> Some True"
      unfolding st by (cases oc) simp_all
    ultimately show ?thesis
      using doc t by (simp add: consistent_def counter_resume props_resume)
  next
    case False
    then have st: "state ?m' = state m"
      using state_resume_stale[of t m oc] state_resume_unmounted[of m t oc] by auto
    have "(loading (state m) = Some True) = (mostRecentMutationId m \<in> out - {t})" if "mounted ?m'"
    proof -
      have mt: "mounted m" using that by (rule mounted_resume)
      then have "t \<noteq> mostRecentMutationId m" using False by simp
      then show ?thesis using eq[OF mt] by auto
    qed
    then show ?thesis
      using ws doc by (simp add: consistent_def st counter_resume props_resume)
  qed
qed

lemma consistent_step:
  assumes "step parser s s'" and "consistent parser s"
  shows "consistent parser s'"
  using assms
proof (cases rule: step.cases)
  case (trigger m m' t out)
  have m': "m' = fst (runMutation m)" and t: "t = Suc (mostRecentMutationId m)"
    using trigger(4) counter_runMutation(2)[of m] by (simp_all add: prod_eq_iff)
  show ?thesis using assms(2) trigger(3) unfolding trigger(1,2) m' t
    by (auto simp add: consistent_def well_shaped_def state_runMutation counter_runMutation
        props_runMutation pending_state_def split: option.splits bool.splits)
next
  case (settle t out m oc)
  then show ?thesis using assms(2) by (simp add: consistent_settle)
next
  case (reconfigured m nextProps nextContext m' out)
  note r = reconfigure_Inr[OF reconfigured(4)]
  show ?thesis using assms(2) r unfolding reconfigured(1,2)
    by (auto simp add: consistent_def well_shaped_def split: option.splits bool.splits if_splits)
next
  case (unmounted m out)
  then show ?thesis using assms(2) by (simp add: consistent_def)
qed

lemma reachable_consistent: "reachable parser s \<Longrightarrow> consistent parser s"
  by (induction rule: reachable.induct) (auto intro: consistent_constructed consistent_step)

text \<open>
  In a reachable system with the component mounted, the settling of an outstanding call
  changes the state if and only if the call holds the latest token.
\<close>

lemma settlement_writes_iff_latest:
  assumes "reachable parser (m, out)" and "mounted m" and "t \<in> out"
  shows "(state (runMutation_resume m t oc) \<noteq> state m) = (t = mostRecentMutationId m)"
proof (cases "t = mostRecentMutationId m")
  case True
  then have "loading (state m) = Some True"
    using reachable_consistent[OF assms(1)] assms(2,3) by (simp add: consistent_def)
  moreover have "loading (state (runMutation_resume m t oc)) = Some False"
    using state_resume_latest[OF assms(2)] unfolding True by (cases oc) simp_all
  ultimately show ?thesis using True by auto
next
  case False
  then show ?thesis by (simp add: state_resume_stale)
qed

subsection \<open>Runs of triggers and of settlements\<close>

lemma counter_triggers: "mostRecentMutationId (triggers n m) = mostRecentMutationId m + n"
  by (induction n arbitrary: m) (simp_all add: counter_runMutation)

lemma mounted_triggers: "mounted (triggers n m) = mounted m"
  by (induction n arbitrary: m) (simp_all add: mounted_runMutation)

lemma state_triggers_loading:
  "loading (state m) = Some True \<Longrightarrow> state (triggers n m) = state m"
  by (induction n arbitrary: m) (simp_all add: state_runMutation)

lemma state_triggers:
  "0 < n \<Longrightarrow> loading (state m) \<noteq> Some True \<Longrightarrow> state (triggers n m) = pending_state"
  by (cases n) (simp_all add: state_triggers_loading state_runMutation pending_state_def)

lemma counter_settles: "mostRecentMutationId (settles m rs) = mostRecentMutationId m"
  by (induction m rs rule: settles.induct) (simp_all add: counter_resume)

lemma state_settles_stale:
  "mostRecentMutationId m \<notin> fst ` set rs \<Longrightarrow> state (settles m rs) = state m"
proof (induction m rs rule: settles.induct)
  case (1 m)
  then show ?case by simp
next
  case (2 m t oc rs)
  then show ?case by (simp add: counter_resume state_resume_stale)
qed

lemma state_settles_latest:
  "mounted m \<Longrightarrow> state m = pending_state\<lparr>notCalled := b\<rparr> \<Longrightarrow> distinct (map fst rs) \<Longrightarrow>
   map_of rs (mostRecentMutationId m) = Some oc \<Longrightarrow>
   state (settles m rs) = (outcome_state oc)\<lparr>notCalled := b\<rparr>"
proof (induction m rs rule: settles.induct)
  case (1 m)
  then show ?case by simp
next
  case (2 m t oc' rs)
  show ?case
  proof (cases "t = mostRecentMutationId m")
    case True
    with 2 have "oc' = oc" and "mostRecentMutationId m \<notin> fst ` set rs" by auto
    then show ?thesis using True 2(2,3)
      by (simp add: state_settles_stale counter_resume resume_pending_latest)
  next
    case False
    with 2 show ?thesis by (simp add: counter_resume state_resume_stale mounted_resume_stale)
  qed
qed

text \<open>
  A burst: \<open>n\<close> triggers of a reachable mounted component, then settlements in any order,
  among them that of the latest call. The fields \<^verbatim>\<open>loading\<close>, \<^verbatim>\<open>data\<close> and \<^verbatim>\<open>error\<close> end as
  the outcome of the latest call; \<^verbatim>\<open>notCalled\<close> stays set when the burst began in a state
  that was marked \<^verbatim>\<open>notCalled\<close> and loading at once.
\<close>

lemma burst_settles:
  assumes "reachable parser (m, out)" and "mounted m" and "0 < n"
    and "distinct (map fst rs)"
    and "map_of rs (mostRecentMutationId m + n) = Some oc"
  shows "state (settles (triggers n m) rs) =
           (outcome_state oc)\<lparr>notCalled := notCalled (state m) \<and> loading (state m) = Some True\<rparr>"
proof -
  have ws: "well_shaped (state m)"
    using reachable_consistent[OF assms(1)] by (simp add: consistent_def)
  have "state (triggers n m) =
      pending_state\<lparr>notCalled := notCalled (state m) \<and> loading (state m) = Some True\<rparr>"
  proof (cases "loading (state m) = Some True")
    case True
    then show ?thesis using ws
      by (simp add: state_triggers_loading well_shaped_def pending_state_def)
  next
    case False
    then show ?thesis using assms(3) by (simp add: state_triggers pending_state_def)
  qed
  then show ?thesis
    using state_settles_latest[of "triggers n m" _ rs oc] assms(2,4,5)
    by (simp add: mounted_triggers counter_triggers)
qed

subsection \<open>The concrete component\<close>

lemma ex_constructed: "constructor ex_parser ex_props (ex_context 1) = Inr ex_fresh"
  by (simp add: checks ex_defs ops)

lemma ex_triggered: "runMutation ex_fresh = (ex_pending, 1)"
  by (simp add: ex_defs ops)

lemma ex_client_changed: "reconfigure ex_parser ex_pending ex_props (ex_context 2) = Inr ex_reset"
  by (simp add: checks ex_defs ops)

lemma ex_triggered_again: "runMutation ex_reset = (ex_retriggered, 2)"
  by (simp add: ex_defs ops)

lemma ex_fresh_reachable: "reachable ex_parser (ex_fresh, {})"
  by (rule reachable.constructed[OF ex_constructed])

lemma ex_pending_reachable: "reachable ex_parser (ex_pending, {1})"
proof -
  have "mounted ex_fresh"
    by (simp add: ex_defs)
  from reachable.stepped[OF ex_fresh_reachable step.trigger[OF this ex_triggered]]
  show ?thesis by simp
qed

lemma ex_reset_reachable: "reachable ex_parser (ex_reset, {1})"
proof -
  have "mounted ex_pending"
    by (simp add: ex_defs)
  from reachable.stepped[OF ex_pending_reachable step.reconfigured[OF this ex_client_changed]]
  show ?thesis .
qed

lemma ex_retriggered_reachable: "reachable ex_parser (ex_retriggered, {1, 2})"
proof -
  have "mounted ex_reset"
    by (simp add: ex_defs)
  from reachable.stepped[OF ex_reset_reachable step.trigger[OF this ex_triggered_again]]
  show ?thesis by (simp add: insert_commute)
qed

lemma ex_props_replaced:
  "reconfigure ex_parser ex_retriggered ex_throwing_props (ex_context 2) = Inr ex_throwing"
  by (simp add: checks ex_defs ops)

lemma ex_throwing_reachable: "reachable ex_parser (ex_throwing, {1, 2})"
proof -
  have "mounted ex_retriggered"
    by (simp add: ex_defs)
  from reachable.stepped[OF ex_retriggered_reachable step.reconfigured[OF this ex_props_replaced]]
  show ?thesis .
qed

lemma ex_torn_down_reachable: "reachable ex_parser (ex_torn_down, {1})"
proof -
  have "mounted ex_pending"
    by (simp add: ex_defs)
  from reachable.stepped[OF ex_pending_reachable step.unmounted[OF this]]
  show ?thesis by (simp add: ex_torn_down_def)
qed

lemma ex_resolved: "runMutation_resume ex_pending 1 (Resolved 7) = ex_succeeded"
  by (simp add: ex_defs ops)

subsection \<open>Validation of the document\<close>

lemma verify_wrong_kind:
  "parser doc \<noteq> Mutation \<Longrightarrow>
   verifyDocumentIsMutation parser doc = Inl (InvariantViolation (wrong_kind_message (parser doc)))"
  by (cases "parser doc") (simp_all add: verifyDocumentIsMutation_def invariant_def wrong_kind_message_def)

lemma verify_mutation:
  "parser doc = Mutation \<Longrightarrow> verifyDocumentIsMutation parser doc = Inr ()"
  by (simp add: verifyDocumentIsMutation_def invariant_def)

subsection \<open>What the render function receives\<close>

lemma render_notCalled: "notCalled (state m) \<Longrightarrow> render m = None"
  by (simp add: render_def)

text \<open>
  While \<^verbatim>\<open>mostRecentMutationId\<close> still has the value \<open>c\<close> it had when \<^verbatim>\<open>notCalled\<close> was
  set, \<^verbatim>\<open>notCalled\<close> stays set: only a trigger clears it, and a trigger moves the counter.
\<close>

lemma step_keeps_abandoned:
  assumes "step parser s s'"
    and "c \<le> mostRecentMutationId (fst s) \<and> (mostRecentMutationId (fst s) = c \<longrightarrow> notCalled (state (fst s)))"
  shows "c \<le> mostRecentMutationId (fst s') \<and> (mostRecentMutationId (fst s') = c \<longrightarrow> notCalled (state (fst s')))"
  using assms
proof (cases rule: step.cases)
  case (trigger m m' t out)
  have "m' = fst (runMutation m)"
    using trigger(4) by simp
  then show ?thesis
    using assms(2) trigger(1,2) by (simp add: counter_runMutation)
next
  case (settle t out m oc)
  then show ?thesis
    using assms(2) by (simp add: counter_resume notCalled_resume)
next
  case (reconfigured m nextProps nextContext m' out)
  note r = reconfigure_Inr[OF reconfigured(4)]
  show ?thesis
    using assms(2) reconfigured(1,2) r(1,4) by (simp split: if_splits)
next
  case (unmounted m out)
  then show ?thesis
    using assms(2) by simp
qed

lemma steps_keep_abandoned:
  assumes "rtranclp (step parser) s s'"
    and "c \<le> mostRecentMutationId (fst s) \<and> (mostRecentMutationId (fst s) = c \<longrightarrow> notCalled (state (fst s)))"
  shows "c \<le> mostRecentMutationId (fst s') \<and> (mostRecentMutationId (fst s') = c \<longrightarrow> notCalled (state (fst s')))"
  using assms by (induction rule: rtranclp_induct) (auto dest: step_keeps_abandoned)

text \<open>
  Before the first trigger the render function receives no result; and a trigger makes
  it receive the loading result, unless the state is marked \<^verbatim>\<open>notCalled\<close> and loading at
  once (the state a change of the client leaves while a call is pending).
\<close>

lemma untriggered_notCalled:
  "reachable parser s \<Longrightarrow> mostRecentMutationId (fst s) = 0 \<longrightarrow> notCalled (state (fst s))"
proof (induction rule: reachable.induct)
  case (constructed p ctx m)
  then show ?case
    by (auto dest: constructor_Inr simp add: ops)
next
  case (stepped s s')
  then show ?case
    using step_keeps_abandoned[of parser s s' 0] by simp
qed

lemma not_called_before_first_trigger:
  assumes "reachable parser (m, out)" and "mostRecentMutationId m = 0"
  shows "render m = None"
  using untriggered_notCalled[OF assms(1)] assms(2) by (simp add: render_notCalled)

lemma trigger_shows_loading:
  assumes "loading (state m) \<noteq> Some True \<or> \<not> notCalled (state m)"
    and "well_shaped (state m)"
  shows "render (fst (runMutation m)) = Some \<lparr>data = None, error = None, loading = Some True\<rparr>"
  using assms
  by (auto simp add: render_def state_runMutation pending_state_def well_shaped_def)

section \<open>Ordering of results\<close>

text \<open>
  Claim C1 says that after a burst of triggers, however the calls settle, the state is
  the outcome of the call with the highest token. The code misses the burst that a
  change of the client interrupts: construct with client 1, trigger (token 1), change the
  client to 2, trigger again (token 2), and let both calls resolve, in either order. The
  second trigger finds \<^verbatim>\<open>loading\<close> still true and does not clear \<^verbatim>\<open>notCalled\<close>; the call
  with token 2 writes \<^verbatim>\<open>loading\<close> and \<^verbatim>\<open>data\<close>, yet the state is not the succeeded state
  and the render function receives no result. What holds of a burst is lemma
  \<open>burst_settles\<close>, and the test of the token is lemma \<open>settlement_writes_iff_latest\<close>.
\<close>

theorem latest_call_hidden_after_client_change:
  "constructor ex_parser ex_props (ex_context 1) = Inr ex_fresh \<and>
   runMutation ex_fresh = (ex_pending, 1) \<and>
   reconfigure ex_parser ex_pending ex_props (ex_context 2) = Inr ex_reset \<and>
   runMutation ex_reset = (ex_retriggered, 2) \<and>
   state (settles ex_retriggered [(1, Resolved 5), (2, Resolved 7)]) \<noteq> outcome_state (Resolved 7) \<and>
   render (settles ex_retriggered [(1, Resolved 5), (2, Resolved 7)]) = None \<and>
   state (settles ex_retriggered [(2, Resolved 7), (1, Resolved 5)]) \<noteq> outcome_state (Resolved 7) \<and>
   render (settles ex_retriggered [(2, Resolved 7), (1, Resolved 5)]) = None"
  using ex_constructed ex_triggered ex_client_changed ex_triggered_again
  by (simp add: render_def ex_defs ops)

text \<open>
  Claim C2. A call that settles, with either outcome, while its token differs from
  \<^verbatim>\<open>mostRecentMutationId\<close> leaves the whole state, that is the fields \<^verbatim>\<open>notCalled\<close>,
  \<^verbatim>\<open>loading\<close>, \<^verbatim>\<open>data\<close> and \<^verbatim>\<open>error\<close>, as it was.
\<close>

theorem stale_resolution_keeps_state:
  assumes "mutationId \<noteq> mostRecentMutationId m"
  shows "state (runMutation_resume m mutationId oc) = state m"
  using assms by (rule state_resume_stale)

theorem stale_resolution_keeps_state_witness:
  "(1::nat) \<noteq> mostRecentMutationId ex_retriggered \<and>
   state (runMutation_resume ex_retriggered 1 (Resolved 7)) = state ex_retriggered \<and>
   state (runMutation_resume ex_retriggered 1 (Rejected 9)) = state ex_retriggered"
proof -
  have h: "(1::nat) \<noteq> mostRecentMutationId ex_retriggered"
    by (simp add: ex_defs)
  show ?thesis
    using h stale_resolution_keeps_state[OF h, of "Resolved 7"]
      stale_resolution_keeps_state[OF h, of "Rejected 9"] by simp
qed

section \<open>Callbacks\<close>

text \<open>
  Claim C3, as the code has it. Let a call settle while the component is mounted, or
  stale after its teardown, and let the completion callback return normally. Then the
  callbacks invoked are exactly these: on success the \<^verbatim>\<open>onCompleted\<close> of the props, once,
  with the data of that call; on failure the \<^verbatim>\<open>onError\<close> of the props, once, with the error
  of that call; and that whether or not the call is stale. (A callback that the props do
  not supply is not invoked.) Issuing a call invokes no callback.
\<close>

theorem callback_invoked_once:
  assumes "mounted m \<or> mutationId \<noteq> mostRecentMutationId m"
    and "\<forall>f. onCompleted (props m) = Some f \<longrightarrow> callback_throws f d = None"
  shows "invoked (runMutation_resume m mutationId (Resolved d)) =
           invoked m @ (case onCompleted (props m) of
                          Some f \<Rightarrow> [CalledOnCompleted (callback_id f) d] | None \<Rightarrow> []) \<and>
         invoked (runMutation_resume m mutationId (Rejected e)) =
           invoked m @ (case onError (props m) of
                          Some f \<Rightarrow> [CalledOnError (callback_id f) e] | None \<Rightarrow> []) \<and>
         invoked (fst (runMutation m)) = invoked m"
proof -
  have resolved: "invoked (runMutation_resume m mutationId (Resolved d)) =
      invoked m @ (case onCompleted (props m) of
                     Some f \<Rightarrow> [CalledOnCompleted (callback_id f) d] | None \<Rightarrow> [])"
    using assms by (auto simp add: ops split: option.splits prod.splits if_splits)
  have rejected: "invoked (runMutation_resume m mutationId (Rejected e)) =
      invoked m @ (case onError (props m) of
                     Some f \<Rightarrow> [CalledOnError (callback_id f) e] | None \<Rightarrow> [])"
    using assms(1) by (auto simp add: ops split: option.splits prod.splits if_splits)
  from resolved rejected show ?thesis
    by (simp add: invoked_runMutation)
qed

theorem callback_invoked_once_witness:
  "mounted ex_retriggered \<and>
   invoked (runMutation_resume ex_retriggered 1 (Resolved 7)) = [CalledOnCompleted 1 7] \<and>
   invoked (runMutation_resume ex_retriggered 2 (Resolved 7)) = [CalledOnCompleted 1 7] \<and>
   invoked (runMutation_resume ex_retriggered 1 (Rejected 9)) = [CalledOnError 2 9] \<and>
   invoked (runMutation_resume ex_retriggered 2 (Rejected 9)) = [CalledOnError 2 9] \<and>
   invoked (runMutation_resume (ex_retriggered\<lparr>mounted := False\<rparr>) 1 (Resolved 7)) = [CalledOnCompleted 1 7]"
proof -
  have m: "mounted ex_retriggered \<or> t \<noteq> mostRecentMutationId ex_retriggered" for t
    by (simp add: ex_defs)
  have u: "mounted (ex_retriggered\<lparr>mounted := False\<rparr>) \<or>
      1 \<noteq> mostRecentMutationId (ex_retriggered\<lparr>mounted := False\<rparr>)"
    by (simp add: ex_defs)
  have r: "\<forall>f. onCompleted (props ex_retriggered) = Some f \<longrightarrow> callback_throws f 7 = None"
    by (simp add: ex_defs)
  have r': "\<forall>f. onCompleted (props (ex_retriggered\<lparr>mounted := False\<rparr>)) = Some f \<longrightarrow>
      callback_throws f 7 = None"
    by (simp add: ex_defs)
  show ?thesis
    using callback_invoked_once[OF m r, of 1 9] callback_invoked_once[OF m r, of 2 9]
      callback_invoked_once[OF u r', of 9]
    by (simp add: ex_defs)
qed

text \<open>
  Claim C3 as stated fails twice. A stale call resolves and the completion callback
  throws: \<^verbatim>\<open>onCompletedMutation\<close> runs inside the \<^verbatim>\<open>try\<close> of \<^verbatim>\<open>runMutation\<close>, so the \<^verbatim>\<open>catch\<close>
  hands the thrown value to \<^verbatim>\<open>onMutationError\<close> and the error callback is invoked as well.
  And the latest call settles after the teardown of the component: \<^verbatim>\<open>setState\<close> drops the
  update with its callback, and no callback is invoked.
\<close>

theorem callback_twice_or_never:
  "reconfigure ex_parser ex_retriggered ex_throwing_props (ex_context 2) = Inr ex_throwing \<and>
   invoked ex_throwing = [] \<and>
   invoked (runMutation_resume ex_throwing 1 (Resolved 7)) = [CalledOnCompleted 3 7, CalledOnError 2 13] \<and>
   mostRecentMutationId ex_torn_down = 1 \<and>
   \<not> mounted ex_torn_down \<and>
   invoked (runMutation_resume ex_torn_down 1 (Resolved 7)) = [] \<and>
   invoked (runMutation_resume ex_torn_down 1 (Rejected 9)) = []"
  using ex_props_replaced by (simp add: ex_defs ops)

section \<open>Change of the client\<close>

text \<open>
  Claim C4, as the code has it. After a reconfiguration that changed the client, the
  render function receives no result, whatever calls are outstanding; and however the
  system goes on, the settling of a call that was issued before the change (its token is
  at most the counter's value at the change) never changes what the render function
  receives. The counter is not reset by the change, so such a call may still hold the
  latest token and then writes \<^verbatim>\<open>loading\<close> and \<^verbatim>\<open>data\<close> or \<^verbatim>\<open>error\<close>; \<^verbatim>\<open>notCalled\<close> hides them.
\<close>

theorem abandoned_call_not_rendered:
  assumes "client m \<noteq> context_client nextContext"
    and "reconfigure parser m nextProps nextContext = Inr m1"
    and "rtranclp (step parser) (m1, out1) (m2, out2)"
    and "t \<le> mostRecentMutationId m"
  shows "render m1 = None \<and> render (runMutation_resume m2 t oc) = render m2"
proof -
  note r = reconfigure_Inr[OF assms(2)]
  have n1: "notCalled (state m1)"
    using r(4) assms(1) by simp
  have "mostRecentMutationId m \<le> mostRecentMutationId m2 \<and>
        (mostRecentMutationId m2 = mostRecentMutationId m \<longrightarrow> notCalled (state m2))"
    using steps_keep_abandoned[OF assms(3), of "mostRecentMutationId m"] n1 r(1) by simp
  then have inv: "mostRecentMutationId m \<le> mostRecentMutationId m2"
    and idle: "mostRecentMutationId m2 = mostRecentMutationId m \<Longrightarrow> notCalled (state m2)"
    by simp_all
  have "render (runMutation_resume m2 t oc) = render m2"
  proof (cases "t = mostRecentMutationId m2")
    case True
    then have "notCalled (state m2)"
      using assms(4) inv idle by simp
    then show ?thesis
      by (simp add: render_notCalled notCalled_resume)
  next
    case False
    then show ?thesis
      by (simp add: render_def state_resume_stale)
  qed
  then show ?thesis
    using n1 by (simp add: render_notCalled)
qed

theorem abandoned_call_not_rendered_witness:
  "client ex_pending \<noteq> context_client (ex_context 2) \<and>
   reconfigure ex_parser ex_pending ex_props (ex_context 2) = Inr ex_reset \<and>
   render ex_reset = None \<and>
   render (runMutation_resume ex_reset 1 (Resolved 7)) = render ex_reset \<and>
   render (runMutation_resume ex_retriggered 1 (Resolved 7)) = render ex_retriggered"
proof -
  have h: "client ex_pending \<noteq> context_client (ex_context 2)"
    by (simp add: ex_defs)
  have t: "(1::nat) \<le> mostRecentMutationId ex_pending"
    by (simp add: ex_defs)
  have s0: "rtranclp (step ex_parser) (ex_reset, {1}) (ex_reset, {1})"
    by simp
  have mr: "mounted ex_reset"
    by (simp add: ex_defs)
  have s1: "rtranclp (step ex_parser) (ex_reset, {1}) (ex_retriggered, insert 2 {1})"
    using step.trigger[OF mr ex_triggered_again] by blast
  show ?thesis
    using h ex_client_changed
      abandoned_call_not_rendered[OF h ex_client_changed s0 t, of "Resolved 7"]
      abandoned_call_not_rendered[OF h ex_client_changed s1 t, of "Resolved 7"]
    by simp
qed

text \<open>
  Claim C4 as stated fails: construct with client 1, trigger, change the client to 2, and
  let the call issued before the change resolve. Its token 1 is still the counter's
  value, so \<^verbatim>\<open>onCompletedMutation\<close> writes \<^verbatim>\<open>loading\<close> and \<^verbatim>\<open>data\<close>.
\<close>

theorem abandoned_call_writes_state:
  "constructor ex_parser ex_props (ex_context 1) = Inr ex_fresh \<and>
   runMutation ex_fresh = (ex_pending, 1) \<and>
   client ex_pending \<noteq> context_client (ex_context 2) \<and>
   reconfigure ex_parser ex_pending ex_props (ex_context 2) = Inr ex_reset \<and>
   state (runMutation_resume ex_reset 1 (Resolved 7)) \<noteq> state ex_reset \<and>
   state (runMutation_resume ex_reset 1 (Resolved 7)) =
     \<lparr>data = Some 7, error = None, loading = Some False, notCalled = True\<rparr>"
  using ex_constructed ex_triggered ex_client_changed by (simp add: ex_defs ops)

text \<open>
  Claim C6, as the code has it. A reconfiguration that finds another client than the
  stored one validates the next document first. If it is a mutation, the new client is
  stored and \<^verbatim>\<open>notCalled\<close> is set, so that the render function receives no result,
  whatever the state held and whatever calls are outstanding. If it is not, the
  wrong-kind error is raised and nothing is reset.
\<close>

theorem client_change_resets:
  assumes "client m \<noteq> context_client nextContext"
  shows "case reconfigure parser m nextProps nextContext of
           Inl e \<Rightarrow> parser (mutation nextProps) \<noteq> Mutation \<and>
                    e = InvariantViolation (wrong_kind_message (parser (mutation nextProps)))
         | Inr m' \<Rightarrow> parser (mutation nextProps) = Mutation \<and>
                     client m' = context_client nextContext \<and>
                     state m' = (state m)\<lparr>notCalled := True\<rparr> \<and>
                     render m' = None"
proof (cases "parser (mutation nextProps) = Mutation")
  case True
  then show ?thesis
    using assms
    by (simp add: reconfigure_def componentWillReceiveProps_def verify_mutation render_def ops)
next
  case False
  then show ?thesis
    using assms
    by (simp add: reconfigure_def componentWillReceiveProps_def verify_wrong_kind)
qed

theorem client_change_resets_witness:
  "client ex_succeeded \<noteq> context_client (ex_context 2) \<and>
   render ex_succeeded = Some \<lparr>data = Some 7, error = None, loading = Some False\<rparr> \<and>
   reconfigure ex_parser ex_succeeded ex_props (ex_context 2) =
     Inr (ex_succeeded\<lparr>client := Some 2, state := (state ex_succeeded)\<lparr>notCalled := True\<rparr>\<rparr>) \<and>
   render (ex_succeeded\<lparr>client := Some 2, state := (state ex_succeeded)\<lparr>notCalled := True\<rparr>\<rparr>) = None \<and>
   reconfigure ex_parser ex_pending ex_props (ex_context 2) = Inr ex_reset \<and>
   render ex_reset = None"
proof -
  have h: "client ex_succeeded \<noteq> context_client (ex_context 2)"
    by (simp add: ex_defs)
  have h': "client ex_pending \<noteq> context_client (ex_context 2)"
    by (simp add: ex_defs)
  have r: "reconfigure ex_parser ex_succeeded ex_props (ex_context 2) =
     Inr (ex_succeeded\<lparr>client := Some 2, state := (state ex_succeeded)\<lparr>notCalled := True\<rparr>\<rparr>)"
    by (simp add: checks ex_defs ops)
  show ?thesis
    using h r client_change_resets[OF h, of ex_parser ex_props]
      client_change_resets[OF h', of ex_parser ex_props] ex_client_changed
    by (simp add: ex_succeeded_def render_def)
qed

text \<open>
  Claim C6 as stated fails when the next document is a query: the client differs, yet
  \<^verbatim>\<open>componentWillReceiveProps\<close> raises before it stores the client or sets the state.
\<close>

theorem client_change_with_query:
  "client ex_succeeded \<noteq> context_client (ex_context 2) \<and>
   componentWillReceiveProps ex_parser ex_succeeded ex_query_props (ex_context 2) =
     Inl (InvariantViolation ''The <Mutation /> component requires a graphql mutation, but got a query.'') \<and>
   reconfigure ex_parser ex_succeeded ex_query_props (ex_context 2) =
     Inl (InvariantViolation ''The <Mutation /> component requires a graphql mutation, but got a query.'')"
  by (simp add: checks ex_defs)

section \<open>Triggering\<close>

text \<open>
  Claim C7 says that every trigger makes the visible state loading. The code misses the
  case of a trigger after the client changed while a call was pending: construct with
  client 1, trigger, change the client to 2, trigger again. \<^verbatim>\<open>setState(initialState)\<close> has
  merged \<^verbatim>\<open>notCalled: true\<close> only and left \<^verbatim>\<open>loading: true\<close>, so \<^verbatim>\<open>onStartMutation\<close> skips its
  write, and the render function receives no result while the second call is in flight,
  and none when it has resolved.
\<close>

theorem trigger_after_client_change:
  "constructor ex_parser ex_props (ex_context 1) = Inr ex_fresh \<and>
   runMutation ex_fresh = (ex_pending, 1) \<and>
   reconfigure ex_parser ex_pending ex_props (ex_context 2) = Inr ex_reset \<and>
   runMutation ex_reset = (ex_retriggered, 2) \<and>
   render ex_retriggered = None \<and>
   render (runMutation_resume ex_retriggered 2 (Resolved 7)) = None"
  using ex_constructed ex_triggered ex_client_changed ex_triggered_again
  by (simp add: render_def ex_defs ops)

section \<open>Shapes of the state\<close>

text \<open>
  Claim C8. In every reachable state: while \<^verbatim>\<open>loading\<close> is true neither data nor error is
  set (Pending); when the data is set, \<^verbatim>\<open>loading\<close> is false and the error is cleared
  (Succeeded); when the error is set, \<^verbatim>\<open>loading\<close> is false and the data is cleared (Failed);
  data and error are never both set. With \<^verbatim>\<open>loading\<close> false exactly one of them is set,
  and with \<^verbatim>\<open>loading\<close> undefined the component has not been called (\<open>well_shaped\<close>).
\<close>

theorem reachable_state_shapes:
  assumes "reachable parser (m, out)"
  shows "well_shaped (state m) \<and>
         (loading (state m) = Some True \<longrightarrow> data (state m) = None \<and> error (state m) = None) \<and>
         (data (state m) \<noteq> None \<longrightarrow> loading (state m) = Some False \<and> error (state m) = None) \<and>
         (error (state m) \<noteq> None \<longrightarrow> loading (state m) = Some False \<and> data (state m) = None) \<and>
         \<not> (data (state m) \<noteq> None \<and> error (state m) \<noteq> None)"
  using reachable_consistent[OF assms]
  by (auto simp add: consistent_def well_shaped_def split: option.splits bool.splits)

theorem reachable_state_shapes_witness:
  "reachable ex_parser (ex_pending, {1}) \<and> well_shaped (state ex_pending) \<and>
   reachable ex_parser (runMutation_resume ex_pending 1 (Resolved 7), {}) \<and>
   well_shaped (state (runMutation_resume ex_pending 1 (Resolved 7))) \<and>
   state (runMutation_resume ex_pending 1 (Resolved 7)) = outcome_state (Resolved 7) \<and>
   reachable ex_parser (runMutation_resume ex_pending 1 (Rejected 9), {}) \<and>
   well_shaped (state (runMutation_resume ex_pending 1 (Rejected 9))) \<and>
   state (runMutation_resume ex_pending 1 (Rejected 9)) = outcome_state (Rejected 9)"
proof -
  have r7: "reachable ex_parser (runMutation_resume ex_pending 1 (Resolved 7), {})"
    using reachable.stepped[OF ex_pending_reachable
        step.settle[of 1 "{1}" ex_parser ex_pending "Resolved 7"]] by simp
  have r9: "reachable ex_parser (runMutation_resume ex_pending 1 (Rejected 9), {})"
    using reachable.stepped[OF ex_pending_reachable
        step.settle[of 1 "{1}" ex_parser ex_pending "Rejected 9"]] by simp
  have s7: "state (runMutation_resume ex_pending 1 (Resolved 7)) = outcome_state (Resolved 7)"
    by (simp add: ex_defs ops)
  have s9: "state (runMutation_resume ex_pending 1 (Rejected 9)) = outcome_state (Rejected 9)"
    by (simp add: ex_defs ops)
  show ?thesis
    using ex_pending_reachable r7 r9 s7 s9
      reachable_state_shapes[OF ex_pending_reachable, THEN conjunct1]
      reachable_state_shapes[OF r7, THEN conjunct1]
      reachable_state_shapes[OF r9, THEN conjunct1]
    by blast
qed

section \<open>Configuration errors\<close>

text \<open>
  Claim C5, as the code has it. With a document that is not a mutation the constructor
  always raises an error; when the context holds a client, it is the error whose message
  names the kind of the document (otherwise the missing-client error comes first).
  Reconfiguring a reachable component with such a document raises the error that names
  the kind. No component results, so nothing can be triggered.
\<close>

theorem wrong_kind_rejected:
  assumes "parser (mutation p) \<noteq> Mutation"
  shows "(\<exists>e. constructor parser p ctx = Inl e) \<and>
         (context_client ctx \<noteq> None \<longrightarrow>
            constructor parser p ctx = Inl (InvariantViolation (wrong_kind_message (parser (mutation p))))) \<and>
         (reachable parser (m, out) \<longrightarrow>
            componentWillReceiveProps parser m p nextContext =
              Inl (InvariantViolation (wrong_kind_message (parser (mutation p)))))"
proof -
  note v = verify_wrong_kind[of parser "mutation p", OF assms]
  have a: "\<exists>e. constructor parser p ctx = Inl e"
    by (simp add: constructor_def v split: sum.splits)
  have b: "constructor parser p ctx = Inl (InvariantViolation (wrong_kind_message (parser (mutation p))))"
    if "context_client ctx \<noteq> None"
    using that by (simp add: constructor_def verifyContext_def invariant_def v)
  have c: "componentWillReceiveProps parser m p nextContext =
      Inl (InvariantViolation (wrong_kind_message (parser (mutation p))))"
    if "reachable parser (m, out)"
  proof -
    have "parser (mutation (props m)) = Mutation"
      using reachable_consistent[OF that] by (simp add: consistent_def)
    then have "props m \<noteq> p"
      using assms by auto
    then show ?thesis
      by (simp add: componentWillReceiveProps_def shallowEqual_def v)
  qed
  from a b c show ?thesis by blast
qed

theorem wrong_kind_rejected_witness:
  "ex_parser (mutation ex_query_props) \<noteq> Mutation \<and>
   (constructor ex_parser ex_query_props (ex_context 1)
      :: error + (DocumentType, nat, nat, nat, nat, nat) component) =
     Inl (InvariantViolation ''The <Mutation /> component requires a graphql mutation, but got a query.'') \<and>
   componentWillReceiveProps ex_parser ex_pending ex_query_props (ex_context 1) =
     Inl (InvariantViolation ''The <Mutation /> component requires a graphql mutation, but got a query.'') \<and>
   componentWillReceiveProps ex_parser ex_pending (ex_props\<lparr>mutation := Subscription\<rparr>) (ex_context 1) =
     Inl (InvariantViolation ''The <Mutation /> component requires a graphql mutation, but got a subscription.'')"
proof -
  have q: "ex_parser (mutation ex_query_props) \<noteq> Mutation"
    by (simp add: ex_defs)
  have s: "ex_parser (mutation (ex_props\<lparr>mutation := Subscription\<rparr>)) \<noteq> Mutation"
    by (simp add: ex_defs)
  have c: "context_client (ex_context 1) \<noteq> None"
    by (simp add: ex_defs)
  have kq: "wrong_kind_message (ex_parser (mutation ex_query_props)) =
      ''The <Mutation /> component requires a graphql mutation, but got a query.''"
    by (simp add: ex_defs wrong_kind_message_def)
  have ks: "wrong_kind_message (ex_parser (mutation (ex_props\<lparr>mutation := Subscription\<rparr>))) =
      ''The <Mutation /> component requires a graphql mutation, but got a subscription.''"
    by (simp add: ex_defs wrong_kind_message_def)
  note Q = wrong_kind_rejected[of ex_parser ex_query_props, OF q]
  note S = wrong_kind_rejected[of ex_parser "ex_props\<lparr>mutation := Subscription\<rparr>", OF s]
  have a: "(constructor ex_parser ex_query_props (ex_context 1)
      :: error + (DocumentType, nat, nat, nat, nat, nat) component) =
     Inl (InvariantViolation (wrong_kind_message (ex_parser (mutation ex_query_props))))"
    by (rule Q[THEN conjunct2, THEN conjunct1, rule_format, OF c])
  have b: "componentWillReceiveProps ex_parser ex_pending ex_query_props (ex_context 1) =
     Inl (InvariantViolation (wrong_kind_message (ex_parser (mutation ex_query_props))))"
    by (rule Q[THEN conjunct2, THEN conjunct2, rule_format, OF ex_pending_reachable])
  have d: "componentWillReceiveProps ex_parser ex_pending (ex_props\<lparr>mutation := Subscription\<rparr>) (ex_context 1) =
     Inl (InvariantViolation (wrong_kind_message (ex_parser (mutation (ex_props\<lparr>mutation := Subscription\<rparr>)))))"
    by (rule S[THEN conjunct2, THEN conjunct2, rule_format, OF ex_pending_reachable])
  show ?thesis
    using q a b d unfolding kq ks by simp
qed

text \<open>
  Claim C5 as stated fails when the context holds no client: the constructor, given a
  query, raises the missing-client error, whose message does not name the kind.
\<close>

theorem wrong_kind_without_client:
  "ex_parser (mutation ex_query_props) = Query \<and>
   (constructor ex_parser ex_query_props ex_no_client
      :: error + (DocumentType, nat, nat, nat, nat, nat) component) \<noteq>
     Inl (InvariantViolation ''The <Mutation /> component requires a graphql mutation, but got a query.'') \<and>
   (constructor ex_parser ex_query_props ex_no_client
      :: error + (DocumentType, nat, nat, nat, nat, nat) component) =
     Inl (InvariantViolation missing_client_message)"
  by (simp add: checks ex_defs)

text \<open>
  Claim C9. When the context holds no client the constructor raises the missing-client
  error, whatever the props; and no document makes \<^verbatim>\<open>verifyDocumentIsMutation\<close> raise
  that error.
\<close>

theorem missing_client_rejected:
  assumes "context_client ctx = None"
  shows "constructor parser p ctx = Inl (InvariantViolation missing_client_message) \<and>
         verifyDocumentIsMutation parser' doc \<noteq> Inl (InvariantViolation missing_client_message)"
  using assms
  by (cases "parser' doc")
    (simp_all add: constructor_def verifyContext_def verifyDocumentIsMutation_def invariant_def
      missing_client_message_def)

theorem missing_client_rejected_witness:
  "context_client ex_no_client = None \<and>
   (constructor ex_parser ex_props ex_no_client
      :: error + (DocumentType, nat, nat, nat, nat, nat) component) =
     Inl (InvariantViolation missing_client_message) \<and>
   verifyDocumentIsMutation ex_parser Query \<noteq> Inl (InvariantViolation missing_client_message) \<and>
   verifyDocumentIsMutation ex_parser Subscription \<noteq> Inl (InvariantViolation missing_client_message)"
proof -
  have h: "context_client ex_no_client = None"
    by (simp add: ex_defs)
  have a: "(constructor ex_parser ex_props ex_no_client
      :: error + (DocumentType, nat, nat, nat, nat, nat) component) =
     Inl (InvariantViolation missing_client_message)"
    by (rule missing_client_rejected[OF h, THEN conjunct1])
  have b: "verifyDocumentIsMutation ex_parser doc \<noteq> Inl (InvariantViolation missing_client_message)"
    for doc :: DocumentType
    by (rule missing_client_rejected[OF h, THEN conjunct2])
  show ?thesis
    using h a b by simp
qed

text \<open>
  Claim C10. When the context holds no client and the document is not a mutation, the
  constructor raises the missing-client error, not the wrong-kind error that the document
  alone would raise: \<^verbatim>\<open>verifyContext\<close> runs before \<^verbatim>\<open>verifyDocumentIsMutation\<close>.
\<close>

theorem client_checked_before_document:
  assumes "context_client ctx = None" and "parser (mutation p) \<noteq> Mutation"
  shows "constructor parser p ctx = Inl (InvariantViolation missing_client_message) \<and>
         verifyDocumentIsMutation parser (mutation p) =
           Inl (InvariantViolation (wrong_kind_message (parser (mutation p)))) \<and>
         wrong_kind_message (parser (mutation p)) \<noteq> missing_client_message"
  using assms
  by (cases "parser (mutation p)")
    (simp_all add: constructor_def verifyContext_def verifyDocumentIsMutation_def invariant_def
      wrong_kind_message_def missing_client_message_def)

theorem client_checked_before_document_witness:
  "context_client ex_no_client = None \<and> ex_parser (mutation ex_query_props) \<noteq> Mutation \<and>
   (constructor ex_parser ex_query_props ex_no_client
      :: error + (DocumentType, nat, nat, nat, nat, nat) component) =
     Inl (InvariantViolation missing_client_message)"
proof -
  have h: "context_client ex_no_client = None"
    by (simp add: ex_defs)
  have q: "ex_parser (mutation ex_query_props) \<noteq> Mutation"
    by (simp add: ex_defs)
  have a: "(constructor ex_parser ex_query_props ex_no_client
      :: error + (DocumentType, nat, nat, nat, nat, nat) component) =
     Inl (InvariantViolation missing_client_message)"
    by (rule client_checked_before_document[of ex_no_client ex_parser ex_query_props, OF h q, THEN conjunct1])
  show ?thesis
    using h q a by simp
qed

end
